theory Spec2Isabelle
  imports Complex_Main
begin

section \<open>The JavaScript runtime, as far as the script uses it\<close>

text \<open>
  The script \<^verbatim>\<open>modjo/modjo-transcripts-to-dust.ts\<close> reads call transcripts page by page
  from the Modjo API and upserts one text document per call into a Dust datasource.

  Strings are lists of characters; a character stands for a code unit below \<open>0x100\<close>.
  A JavaScript \<^verbatim>\<open>number\<close> is read as a real number and arithmetic is exact: the rounding
  of IEEE doubles is not part of the model. Below \<open>2 ^ 53\<close> this is what the code computes
  where it matters here: every integer is a double and prints with all its digits, and the
  quotient of a double by 60 never rounds up to the next integer. From \<open>2 ^ 53\<close> on the code
  rounds quotients and prints the shortest digits that read back as the same double, so
  statements about digits carry the bound \<open>2 ^ 53\<close>. An integral number (a result of
  \<^verbatim>\<open>Math.floor\<close>, an array length, the page counter) is an \<open>int\<close>.
\<close>

subsection \<open>Strings\<close>

text \<open>The code points below \<open>0x100\<close> that \<^verbatim>\<open>String.prototype.trim\<close> removes: TAB, LF, VT,
  FF, CR, SPACE and NO-BREAK SPACE.\<close>

definition isWhiteSpace :: "char \<Rightarrow> bool" where
  "isWhiteSpace c \<longleftrightarrow>
     c = CHR 0x09 \<or> c = CHR 0x0A \<or> c = CHR 0x0B \<or> c = CHR 0x0C \<or> c = CHR 0x0D \<or>
     c = CHR 0x20 \<or> c = CHR 0xA0"

definition trim :: "string \<Rightarrow> string" where
  "trim s = rev (dropWhile isWhiteSpace (rev (dropWhile isWhiteSpace s)))"

text \<open>\<^verbatim>\<open>s.padStart(targetLength, padString)\<close>: nothing happens when \<open>s\<close> is long enough or the
  filler is empty; otherwise the filler is repeated and cut to the missing length.\<close>

definition padStart :: "nat \<Rightarrow> string \<Rightarrow> string \<Rightarrow> string" where
  "padStart targetLength padString s =
     (if targetLength \<le> length s \<or> padString = [] then s
      else take (targetLength - length s)
             (concat (replicate (targetLength - length s) padString)) @ s)"

text \<open>\<^verbatim>\<open>xs.join(sep)\<close> on an array of strings.\<close>

fun join :: "string \<Rightarrow> string list \<Rightarrow> string" where
  "join sep [] = []"
| "join sep [x] = x"
| "join sep (x # y # ys) = x @ sep @ join sep (y # ys)"

text \<open>A value of type \<^verbatim>\<open>string | null\<close> (or an optional property of that type) is a
  \<open>string option\<close>. It is truthy when it is a non-empty string; in a template literal
  \<^verbatim>\<open>null\<close> prints as the word \<^verbatim>\<open>null\<close>.\<close>

definition truthy :: "string option \<Rightarrow> bool" where
  "truthy v = (case v of None \<Rightarrow> False | Some s \<Rightarrow> s \<noteq> [])"

definition template_string :: "string option \<Rightarrow> string" where
  "template_string v = (case v of None \<Rightarrow> ''null'' | Some s \<Rightarrow> s)"

subsection \<open>Numbers\<close>

definition digit :: "nat \<Rightarrow> char" where
  "digit d = char_of (48 + d)"

text \<open>The decimal representation of a natural number, most significant digit first, with
  no leading zero.\<close>

fun digits :: "nat \<Rightarrow> string" where
  "digits s = (if s < 10 then [digit s] else digits (s div 10) @ [digit (s mod 10)])"

declare digits.simps [simp del]

fun trailing_zeros :: "nat \<Rightarrow> nat" where
  "trailing_zeros x =
     (if 0 < x \<and> x mod 10 = 0 then Suc (trailing_zeros (x div 10)) else 0)"

declare trailing_zeros.simps [simp del]

text \<open>
  \<^verbatim>\<open>Number::toString\<close> of ECMAScript on a positive integer \<open>x\<close>. The standard takes
  integers \<open>n\<close>, \<open>k\<close>, \<open>s\<close> with \<open>10 ^ (k - 1) \<le> s < 10 ^ k\<close>, \<open>s * 10 ^ (n - k) = x\<close> and \<open>k\<close>
  as small as possible: \<open>s\<close> is \<open>x\<close> without its trailing zeros, \<open>k\<close> the number of digits of
  \<open>s\<close> and \<open>n\<close> the number of digits of \<open>x\<close>. Up to \<open>n = 21\<close> the result is the digits of \<open>s\<close>
  followed by \<open>n - k\<close> zeros; from \<open>n = 22\<close> on it is the exponent notation.

  The standard asks only that \<open>s * 10 ^ (n - k)\<close> rounds to \<open>x\<close>; here it is \<open>x\<close> exactly. The
  two agree for every integer below \<open>2 ^ 53\<close>, and for a larger double whose own digits are
  already the shortest that read back as it, such as \<open>10 ^ 21\<close>. For other integers from
  \<open>2 ^ 53\<close> on the code prints fewer digits than this function.
\<close>

definition Number_toString_pos :: "nat \<Rightarrow> string" where
  "Number_toString_pos x =
     (let t = trailing_zeros x;
          s = x div 10 ^ t;
          k = length (digits s);
          n = k + t
      in if n \<le> 21 then digits s @ replicate (n - k) (CHR ''0'')
         else if k = 1 then digits s @ ''e+'' @ digits (n - 1)
         else hd (digits s) # ''.'' @ tl (digits s) @ ''e+'' @ digits (n - 1))"

definition Number_toString :: "int \<Rightarrow> string" where
  "Number_toString x =
     (if x = 0 then ''0''
      else if x < 0 then ''-'' @ Number_toString_pos (nat (- x))
      else Number_toString_pos (nat x))"

text \<open>
  A number in a template literal. An integral value prints as above. The digits of a
  number with a fractional part come from the shortest decimal that reads back as the same
  double; that conversion is the parameter \<open>fmt\<close> of everything that prints a number.
\<close>

definition template_number :: "(real \<Rightarrow> string) \<Rightarrow> real \<Rightarrow> string" where
  "template_number fmt x =
     (if x = of_int \<lfloor>x\<rfloor> then Number_toString \<lfloor>x\<rfloor> else fmt x)"

definition Math_floor :: "real \<Rightarrow> int" where
  "Math_floor x = \<lfloor>x\<rfloor>"

text \<open>The operator \<^verbatim>\<open>%\<close>: the quotient is rounded towards zero, so the result has
  the sign of the dividend.\<close>

definition truncate_quotient :: "real \<Rightarrow> int" where
  "truncate_quotient q = (if q < 0 then \<lceil>q\<rceil> else \<lfloor>q\<rfloor>)"

definition Number_remainder :: "real \<Rightarrow> real \<Rightarrow> real" where
  "Number_remainder n d = n - d * of_int (truncate_quotient (n / d))"

subsection \<open>Promises, the console and the two services\<close>

text \<open>
  An awaited request either is fulfilled or throws. The handlers of the script tell two
  kinds of thrown values apart: an Axios error that carries a response (its
  \<^verbatim>\<open>response.data\<close> is printed), and anything else (the value itself is printed). Both
  payloads are kept as text.
\<close>

datatype rejection = AxiosResponseError string | OtherError string

datatype 'a settled = Fulfilled 'a | Rejected rejection

text \<open>\<^verbatim>\<open>console.log(msg)\<close> and \<^verbatim>\<open>console.error(msg, payload)\<close>.\<close>

datatype console_line = Console_log string | Console_error string string

text \<open>The body and the path of a \<^verbatim>\<open>dustApi.post\<close>.\<close>

record DustRequest =
  path :: string
  text' :: string

text \<open>
  What a run does to the outside: the lines it prints, the pages it asks Modjo for (each
  \<^verbatim>\<open>modjoApi.post("/v1/calls/exports", ...)\<close> with \<^verbatim>\<open>perPage = 50\<close>, all relations and the date
  filter), and the documents it posts to Dust, each in order.
\<close>

record world =
  console :: "console_line list"
  modjo_posts :: "int list"
  dust_posts :: "DustRequest list"

definition console_log :: "string \<Rightarrow> world \<Rightarrow> world" where
  "console_log msg w = w\<lparr>console := console w @ [Console_log msg]\<rparr>"

definition console_error :: "string \<Rightarrow> string \<Rightarrow> world \<Rightarrow> world" where
  "console_error msg payload w = w\<lparr>console := console w @ [Console_error msg payload]\<rparr>"

definition posted :: "int \<Rightarrow> world \<Rightarrow> world" where
  "posted page w = w\<lparr>modjo_posts := modjo_posts w @ [page]\<rparr>"

definition rejection_payload :: "rejection \<Rightarrow> string" where
  "rejection_payload e = (case e of AxiosResponseError d \<Rightarrow> d | OtherError v \<Rightarrow> v)"

section \<open>The script\<close>

subsection \<open>The interface ModjoCallExport\<close>

record Recording =
  url :: string

record Speaker =
  contactId :: "real option"
  userId :: "real option"
  email :: "string option"
  name :: string
  phoneNumber :: "string option"
  speakerId :: real
  type :: string

record Topic =
  topicId :: real
  name :: string

record TranscriptEntry =
  startTime :: real
  endTime :: real
  speakerId :: real
  content :: string
  topics :: "Topic list"

text \<open>The interface declares \<^verbatim>\<open>recording\<close> as always there, but the script tests it before
  use, so it is optional here.\<close>

record Relations =
  recording :: "Recording option"
  aiSummary :: "string option"
  speakers :: "Speaker list"
  transcript :: "TranscriptEntry list"

record ModjoCallExport =
  callId :: real
  title :: string
  startDate :: string
  duration :: real
  provider :: string
  language :: string
  callCrmId :: "string option"
  relations :: Relations

text \<open>The \<^verbatim>\<open>data\<close> of a page response, \<^verbatim>\<open>pagination\<close> flattened.\<close>

record PageResponse =
  totalValues :: real
  lastPage :: real
  values' :: "ModjoCallExport list"

text \<open>The two identifiers of the environment that end up in the request path.\<close>

record Config =
  DUST_WORKSPACE_ID :: string
  DUST_DATASOURCE_ID :: string

subsection \<open>formatTime\<close>

definition formatTime :: "real \<Rightarrow> string" where
  "formatTime seconds =
     (let minutes = Math_floor (seconds / 60);
          remainingSeconds = Math_floor (Number_remainder seconds 60)
      in padStart 2 ''0'' (Number_toString minutes) @ '':'' @
         padStart 2 ''0'' (Number_toString remainingSeconds))"

subsection \<open>getModjoTranscripts\<close>

text \<open>
  The \<^verbatim>\<open>do ... while (true)\<close> loop. \<open>modjoApi\<close> answers the request for a page; the page
  counter only grows, so no page is asked for twice. The loop runs on while the source
  keeps reporting a later last page, hence the option type: \<open>None\<close> is a run that never
  returns.
\<close>

partial_function (option) getModjoTranscripts_loop ::
  "(int \<Rightarrow> PageResponse settled) \<Rightarrow> ModjoCallExport list \<Rightarrow> int \<Rightarrow> world
     \<Rightarrow> (ModjoCallExport list \<times> world) option" where
  "getModjoTranscripts_loop modjoApi allTranscripts page w =
     (case modjoApi page of
        Fulfilled response \<Rightarrow>
          (let allTranscripts = allTranscripts @ values' response;
               w = console_log (''Retrieved '' @ Number_toString (int (length (values' response)))
                                  @ '' transcripts. Total: ''
                                  @ Number_toString (int (length allTranscripts)))
                     (posted page w)
           in if lastPage response \<le> of_int page then Some (allTranscripts, w)
              else getModjoTranscripts_loop modjoApi allTranscripts (page + 1) w)
      | Rejected e \<Rightarrow>
          Some (allTranscripts,
            console_error ''Error fetching Modjo transcripts:'' (rejection_payload e)
              (posted page w)))"

definition getModjoTranscripts ::
  "(int \<Rightarrow> PageResponse settled) \<Rightarrow> world \<Rightarrow> (ModjoCallExport list \<times> world) option" where
  "getModjoTranscripts modjoApi w = getModjoTranscripts_loop modjoApi [] 1 w"

subsection \<open>upsertToDustDatasource\<close>

text \<open>
  The parameter \<^verbatim>\<open>transcript\<close> and the variable \<^verbatim>\<open>content\<close> of the source share their names
  with fields of the interface, so they are bound by a \<open>\<lambda>\<close> here. The function is split at
  its local variables: \<open>documentId\<close>, the \<open>content\<close> built before the \<^verbatim>\<open>try\<close>, the request, and
  the effect of the \<^verbatim>\<open>try\<close> block.
\<close>

definition documentId :: "(real \<Rightarrow> string) \<Rightarrow> ModjoCallExport \<Rightarrow> string" where
  "documentId fmt = (\<lambda>transcript.
     ''modjo-transcript-'' @ template_number fmt (callId transcript))"

text \<open>The two \<^verbatim>\<open>forEach\<close> callbacks; each appends to \<^verbatim>\<open>content\<close>.\<close>

definition speakers_callback :: "(real \<Rightarrow> string) \<Rightarrow> Speaker \<Rightarrow> string \<Rightarrow> string" where
  "speakers_callback fmt speaker = (\<lambda>content.
      let content = content @ template_number fmt (Speaker.speakerId speaker) @ '': ''
                      @ Speaker.name speaker @ '' ('' @ Speaker.type speaker @ '')'';
          content = (if truthy (email speaker)
                     then content @ '' - Email: '' @ template_string (email speaker)
                     else content);
          content = (if truthy (phoneNumber speaker)
                     then content @ '' - Phone: '' @ template_string (phoneNumber speaker)
                     else content)
      in content @ ''\<newline>'')"

definition transcript_callback ::
  "(real \<Rightarrow> string) \<Rightarrow> ModjoCallExport \<Rightarrow> TranscriptEntry \<Rightarrow> string \<Rightarrow> string" where
  "transcript_callback fmt = (\<lambda>transcript entry content.
      let speaker = find (\<lambda>s. Speaker.speakerId s = TranscriptEntry.speakerId entry)
                      (speakers (relations transcript));
          speakerName = (case speaker of
                           Some sp \<Rightarrow> Speaker.name sp
                         | None \<Rightarrow> ''Speaker '' @ template_number fmt (TranscriptEntry.speakerId entry));
          content = content @ ''['' @ formatTime (startTime entry) @ '' - ''
                      @ formatTime (endTime entry) @ ''] '' @ speakerName @ '': ''
                      @ TranscriptEntry.content entry @ ''\<newline>'';
          content = (if 0 < length (topics entry)
                     then content @ ''Topics: '' @ join '', '' (map Topic.name (topics entry))
                            @ ''\<newline>''
                     else content)
      in content @ ''\<newline>'')"

text \<open>The variable \<^verbatim>\<open>content\<close> when the \<^verbatim>\<open>try\<close> block is reached.\<close>

definition build_content :: "(real \<Rightarrow> string) \<Rightarrow> ModjoCallExport \<Rightarrow> string" where
  "build_content fmt = (\<lambda>transcript.
      let content = ''Call ID: '' @ template_number fmt (callId transcript) @ ''\<newline>'';
          content = content @ ''Title: '' @ title transcript @ ''\<newline>'';
          content = content @ ''Date: '' @ startDate transcript @ ''\<newline>'';
          content = content @ ''Duration: '' @ template_number fmt (duration transcript)
                      @ '' seconds\<newline>'';
          content = content @ ''Provider: '' @ provider transcript @ ''\<newline>'';
          content = content @ ''Language: '' @ language transcript @ ''\<newline>'';
          content = (if truthy (callCrmId transcript)
                     then content @ ''CRM ID: '' @ template_string (callCrmId transcript)
                            @ ''\<newline>''
                     else content);
          content = (case recording (relations transcript) of
                       Some r \<Rightarrow> content @ ''Recording URL: '' @ url r @ ''\<newline>''
                     | None \<Rightarrow> content);
          content = (if truthy (aiSummary (relations transcript))
                     then content @ ''AI Summary: ''
                            @ template_string (aiSummary (relations transcript)) @ ''\<newline>''
                     else content);
          content = content @ ''\<newline>Speakers:\<newline>'';
          content = fold (speakers_callback fmt) (speakers (relations transcript)) content;
          content = content @ ''\<newline>Transcript:\<newline>'';
          content = fold (transcript_callback fmt transcript)
                      (Relations.transcript (relations transcript)) content
      in content)"

definition dust_request :: "(real \<Rightarrow> string) \<Rightarrow> Config \<Rightarrow> ModjoCallExport \<Rightarrow> DustRequest" where
  "dust_request fmt cfg = (\<lambda>transcript.
     \<lparr>path = ''/w/'' @ DUST_WORKSPACE_ID cfg @ ''/data_sources/'' @ DUST_DATASOURCE_ID cfg
              @ ''/documents/'' @ documentId fmt transcript,
      text' = trim (build_content fmt transcript)\<rparr>)"

text \<open>
  \<open>dustApi n r\<close> is how the post of request \<open>r\<close> settles when \<open>n\<close> documents were posted
  before it. \<^verbatim>\<open>limiter.schedule\<close> settles as the job it runs; when it starts the job is a
  matter of time and is not modelled.
\<close>

definition upsertToDustDatasource ::
  "(real \<Rightarrow> string) \<Rightarrow> Config \<Rightarrow> (nat \<Rightarrow> DustRequest \<Rightarrow> unit settled)
     \<Rightarrow> ModjoCallExport \<Rightarrow> world \<Rightarrow> world" where
  "upsertToDustDatasource fmt cfg dustApi = (\<lambda>transcript w.
      let request = dust_request fmt cfg transcript;
          outcome = dustApi (length (dust_posts w)) request;
          w = w\<lparr>dust_posts := dust_posts w @ [request]\<rparr>
      in case outcome of
           Fulfilled _ \<Rightarrow>
             console_log (''Upserted transcript '' @ template_number fmt (callId transcript)
                            @ '' to Dust datasource'') w
         | Rejected e \<Rightarrow>
             console_error (''Error upserting transcript '' @ template_number fmt (callId transcript)
                              @ '' to Dust datasource:'') (rejection_payload e) w)"

subsection \<open>main\<close>

text \<open>Nothing inside the \<^verbatim>\<open>try\<close> of \<^verbatim>\<open>main\<close> throws: both functions catch what their
  requests throw. So its handler has no branch here.\<close>

definition main ::
  "(real \<Rightarrow> string) \<Rightarrow> Config \<Rightarrow> (int \<Rightarrow> PageResponse settled)
     \<Rightarrow> (nat \<Rightarrow> DustRequest \<Rightarrow> unit settled) \<Rightarrow> world \<Rightarrow> world option" where
  "main fmt cfg modjoApi dustApi w =
     (case getModjoTranscripts modjoApi w of
        None \<Rightarrow> None
      | Some (transcripts, w) \<Rightarrow>
          Some (console_log ''All transcripts processed successfully.''
                 (fold (upsertToDustDatasource fmt cfg dustApi) transcripts
                   (console_log (''Found '' @ Number_toString (int (length transcripts))
                                   @ '' transcripts.'') w))))"

section \<open>The behaviour as specified\<close>

subsection \<open>The time format\<close>

text \<open>The format as the specification words it: the minute count \<open>floor (s / 60)\<close> in
  decimal, padded with zeros on the left to at least two digits, a colon, and
  \<open>floor (s mod 60)\<close> padded to two digits.\<close>

definition zero_pad2 :: "string \<Rightarrow> string" where
  "zero_pad2 ds = replicate (2 - length ds) (CHR ''0'') @ ds"

definition formatTime_spec :: "real \<Rightarrow> string" where
  "formatTime_spec s =
     zero_pad2 (digits (nat \<lfloor>s / 60\<rfloor>)) @ '':'' @
     zero_pad2 (digits (nat \<lfloor>s - 60 * of_int \<lfloor>s / 60\<rfloor>\<rfloor>))"

text \<open>The number a string of decimal digits denotes.\<close>

definition digit_value :: "char \<Rightarrow> nat" where
  "digit_value c = of_char c - 48"

definition decimal_value :: "string \<Rightarrow> nat" where
  "decimal_value ds = foldl (\<lambda>a c. 10 * a + digit_value c) 0 ds"

definition is_digit :: "char \<Rightarrow> bool" where
  "is_digit c \<longleftrightarrow> (48::nat) \<le> of_char c \<and> of_char c \<le> (57::nat)"

subsection \<open>The document layout\<close>

text \<open>
  The document as the specification describes it, line by line: a header, the speakers
  and the transcript. An optional field counts as present when it is truthy, that is,
  neither missing nor the empty string.
\<close>

definition optional_line :: "string \<Rightarrow> string option \<Rightarrow> string list" where
  "optional_line label v =
     (case v of None \<Rightarrow> [] | Some x \<Rightarrow> if x = [] then [] else [label @ x])"

definition header_lines :: "(real \<Rightarrow> string) \<Rightarrow> ModjoCallExport \<Rightarrow> string list" where
  "header_lines fmt c =
     [''Call ID: '' @ template_number fmt (callId c),
      ''Title: '' @ title c,
      ''Date: '' @ startDate c,
      ''Duration: '' @ template_number fmt (duration c) @ '' seconds'',
      ''Provider: '' @ provider c,
      ''Language: '' @ language c]
     @ optional_line ''CRM ID: '' (callCrmId c)
     @ (case recording (relations c) of None \<Rightarrow> [] | Some r \<Rightarrow> [''Recording URL: '' @ url r])
     @ optional_line ''AI Summary: '' (aiSummary (relations c))"

definition lines :: "string list \<Rightarrow> string" where
  "lines ls = concat (map (\<lambda>l. l @ ''\<newline>'') ls)"

definition optional_suffix :: "string \<Rightarrow> string option \<Rightarrow> string" where
  "optional_suffix label v =
     (case v of None \<Rightarrow> [] | Some x \<Rightarrow> if x = [] then [] else label @ x)"

definition speaker_line :: "(real \<Rightarrow> string) \<Rightarrow> Speaker \<Rightarrow> string" where
  "speaker_line fmt s =
     template_number fmt (Speaker.speakerId s) @ '': '' @ Speaker.name s
       @ '' ('' @ Speaker.type s @ '')''
       @ optional_suffix '' - Email: '' (email s)
       @ optional_suffix '' - Phone: '' (phoneNumber s)"

definition speaker_name :: "(real \<Rightarrow> string) \<Rightarrow> Speaker list \<Rightarrow> real \<Rightarrow> string" where
  "speaker_name fmt ss i =
     (case find (\<lambda>s. Speaker.speakerId s = i) ss of
        Some s \<Rightarrow> Speaker.name s
      | None \<Rightarrow> ''Speaker '' @ template_number fmt i)"

definition entry_line :: "string \<Rightarrow> TranscriptEntry \<Rightarrow> string" where
  "entry_line speakerName e =
     ''['' @ formatTime (startTime e) @ '' - '' @ formatTime (endTime e) @ ''] ''
       @ speakerName @ '': '' @ TranscriptEntry.content e"

definition entry_lines :: "(real \<Rightarrow> string) \<Rightarrow> Speaker list \<Rightarrow> TranscriptEntry \<Rightarrow> string list" where
  "entry_lines fmt ss e =
     [entry_line (speaker_name fmt ss (TranscriptEntry.speakerId e)) e]
     @ (if topics e = [] then [] else [''Topics: '' @ join '', '' (map Topic.name (topics e))])
     @ [[]]"

definition document_lines :: "(real \<Rightarrow> string) \<Rightarrow> ModjoCallExport \<Rightarrow> string list" where
  "document_lines fmt c =
     header_lines fmt c
     @ ['''', ''Speakers:'']
     @ map (speaker_line fmt) (speakers (relations c))
     @ ['''', ''Transcript:'']
     @ concat (map (entry_lines fmt (speakers (relations c))) (transcript (relations c)))"

text \<open>The call with only its first \<open>i\<close> transcript entries.\<close>

definition first_entries :: "nat \<Rightarrow> ModjoCallExport \<Rightarrow> ModjoCallExport" where
  "first_entries i c =
     c\<lparr>relations := (relations c)\<lparr>transcript := take i (transcript (relations c))\<rparr>\<rparr>"




text \<open>The line \<^verbatim>\<open>upsertToDustDatasource\<close> prints for a call, given how its request
  settled.\<close>

definition upsert_report :: "(real \<Rightarrow> string) \<Rightarrow> ModjoCallExport \<Rightarrow> unit settled \<Rightarrow> console_line" where
  "upsert_report fmt c outcome =
     (case outcome of
        Fulfilled _ \<Rightarrow>
          Console_log (''Upserted transcript '' @ template_number fmt (callId c)
                         @ '' to Dust datasource'')
      | Rejected e \<Rightarrow>
          Console_error (''Error upserting transcript '' @ template_number fmt (callId c)
                           @ '' to Dust datasource:'') (rejection_payload e))"

section \<open>Example data\<close>

definition example_call :: "real \<Rightarrow> ModjoCallExport" where
  "example_call i =
     \<lparr>callId = i, title = ''Demo'', startDate = ''2024-03-01T10:00:00Z'', duration = 125,
      provider = ''aircall'', language = ''en'', callCrmId = None,
      relations = \<lparr>recording = None, aiSummary = None, speakers = [], transcript = []\<rparr>\<rparr>"

text \<open>A source that reports \<open>lastPage = 3\<close> and serves three different batches.\<close>

definition three_pages :: "PageResponse list" where
  "three_pages =
     [\<lparr>totalValues = 5, lastPage = 3, values' = [example_call 1, example_call 2]\<rparr>,
      \<lparr>totalValues = 5, lastPage = 3, values' = [example_call 3, example_call 4]\<rparr>,
      \<lparr>totalValues = 5, lastPage = 3, values' = [example_call 5]\<rparr>]"

text \<open>A Modjo that serves the given pages and answers every other request with a
  server error.\<close>

definition serve :: "PageResponse list \<Rightarrow> int \<Rightarrow> PageResponse settled" where
  "serve ds p =
     (if 1 \<le> p \<and> p \<le> int (length ds) then Fulfilled (ds ! nat (p - 1))
      else Rejected (AxiosResponseError ''Internal Server Error''))"

text \<open>A source on which every page reports one more page.\<close>

definition endless_source :: "int \<Rightarrow> PageResponse settled" where
  "endless_source p = Fulfilled \<lparr>totalValues = 0, lastPage = of_int p + 1, values' = []\<rparr>"

definition empty_world :: world where
  "empty_world = \<lparr>console = [], modjo_posts = [], dust_posts = []\<rparr>"

text \<open>No number with a fractional part is printed in the examples.\<close>

definition integral_only :: "real \<Rightarrow> string" where
  "integral_only x = []"

definition example_config :: Config where
  "example_config = \<lparr>DUST_WORKSPACE_ID = ''w1'', DUST_DATASOURCE_ID = ''ds1''\<rparr>"

definition kickoff_call :: ModjoCallExport where
  "kickoff_call =
     \<lparr>callId = 42, title = ''Kickoff'', startDate = ''2024-03-01T10:00:00Z'', duration = 125,
      provider = ''aircall'', language = ''en'', callCrmId = Some ''crm-7'',
      relations =
        \<lparr>recording = Some \<lparr>url = ''https://rec/42''\<rparr>,
         aiSummary = None,
         speakers =
           [\<lparr>contactId = None, userId = Some 3, email = Some ''ann@x.io'', name = ''Ann'',
             phoneNumber = None, speakerId = 1, type = ''user''\<rparr>,
            \<lparr>contactId = Some 8, userId = None, email = Some [], name = ''Bob'',
             phoneNumber = Some ''+331'', speakerId = 2, type = ''contact''\<rparr>],
         transcript =
           [\<lparr>startTime = 0, endTime = 59, speakerId = 1, content = ''Hello'',
             topics = [\<lparr>topicId = 1, name = ''intro''\<rparr>, \<lparr>topicId = 2, name = ''pricing''\<rparr>]\<rparr>,
            \<lparr>startTime = 59.5, endTime = 125, speakerId = 9, content = ''Hi '',
             topics = []\<rparr>]\<rparr>\<rparr>"

text \<open>A Dust that rejects the first document and accepts every later one.\<close>

definition first_fails :: "nat \<Rightarrow> DustRequest \<Rightarrow> unit settled" where
  "first_fails k r = (if k = 0 then Rejected (AxiosResponseError ''Bad Request'') else Fulfilled ())"

section \<open>Facts about the runtime functions\<close>

subsection \<open>Decimal digits\<close>

lemma digits_small: "s < 10 \<Longrightarrow> digits s = [digit s]"
  by (subst digits.simps) simp

lemma digits_big: "10 \<le> s \<Longrightarrow> digits s = digits (s div 10) @ [digit (s mod 10)]"
  by (subst digits.simps) simp

lemma trailing_zeros_step:
  "0 < x \<Longrightarrow> x mod 10 = 0 \<Longrightarrow> trailing_zeros x = Suc (trailing_zeros (x div 10))"
  by (subst trailing_zeros.simps) simp

lemma trailing_zeros_stop: "x = 0 \<or> x mod 10 \<noteq> 0 \<Longrightarrow> trailing_zeros x = 0"
  by (subst trailing_zeros.simps) auto

lemma digit_simps:
  "digit 0 = CHR ''0''" "digit 1 = CHR ''1''" "digit 2 = CHR ''2''" "digit 3 = CHR ''3''"
  "digit 4 = CHR ''4''" "digit 5 = CHR ''5''" "digit 6 = CHR ''6''" "digit 7 = CHR ''7''"
  "digit 8 = CHR ''8''" "digit 9 = CHR ''9''" "digit (Suc 0) = CHR ''1''"
  by (simp_all add: digit_def char_of_def bit_0)

lemmas eval_digits = digits_small digits_big digit_simps trailing_zeros_step trailing_zeros_stop
  Number_toString_def Number_toString_pos_def Let_def

lemma of_char_digit: "d < 10 \<Longrightarrow> of_char (digit d) = 48 + d"
  by (simp add: digit_def)

lemma digits_times_power:
  "0 < m \<Longrightarrow> digits (m * 10 ^ t) = digits m @ replicate t (CHR ''0'')"
proof (induction t)
  case 0
  then show ?case by simp
next
  case (Suc t)
  have big: "10 \<le> m * 10 ^ Suc t" using Suc.prems by simp
  have "digits (m * 10 ^ Suc t) = digits (m * 10 ^ t) @ [digit 0]"
    using digits_big [OF big] by simp
  then show ?case
    using Suc by (simp add: digit_simps replicate_append_same)
qed

lemma trailing_zeros_decomp:
  "0 < x \<Longrightarrow>
     x div 10 ^ trailing_zeros x * 10 ^ trailing_zeros x = x \<and> 0 < x div 10 ^ trailing_zeros x"
proof (induction x rule: trailing_zeros.induct)
  case (1 x)
  show ?case
  proof (cases "x mod 10 = 0")
    case True
    from True "1.prems" have pos: "0 < x div 10"
      by (simp add: div_greater_zero_iff) presburger
    have tz: "trailing_zeros x = Suc (trailing_zeros (x div 10))"
      using trailing_zeros_step "1.prems" True by simp
    have ih: "x div 10 div 10 ^ trailing_zeros (x div 10) * 10 ^ trailing_zeros (x div 10)
          = x div 10
        \<and> 0 < x div 10 div 10 ^ trailing_zeros (x div 10)"
      using "1.IH" "1.prems" True pos by simp
    have d: "x div 10 ^ trailing_zeros x = x div 10 div 10 ^ trailing_zeros (x div 10)"
      by (simp add: tz div_mult2_eq)
    have "x div 10 * 10 = x" using True by presburger
    then show ?thesis using ih d tz by (simp add: mult.assoc [symmetric])
  next
    case False
    then have "trailing_zeros x = 0" by (simp add: trailing_zeros_stop)
    then show ?thesis using "1.prems" by simp
  qed
qed

lemma length_digits_le: "0 < k \<Longrightarrow> x < 10 ^ k \<Longrightarrow> length (digits x) \<le> k"
proof (induction k arbitrary: x)
  case 0
  then show ?case by simp
next
  case (Suc k)
  show ?case
  proof (cases "x < 10")
    case True
    then show ?thesis by (simp add: digits_small)
  next
    case False
    then have k: "0 < k" using Suc.prems by (cases k) auto
    have "x div 10 < 10 ^ k"
      using Suc.prems by (simp add: less_mult_imp_div_less mult.commute)
    then have "length (digits (x div 10)) \<le> k" using Suc.IH k by simp
    then show ?thesis using False by (simp add: digits_big)
  qed
qed

text \<open>Below \<open>10 ^ 21\<close> the function gives the decimal digits of a non-negative integer
  (the notation changes at \<open>10 ^ 21\<close>).\<close>

lemma Number_toString_pos_digits:
  assumes "0 < x" "x < 10 ^ 21"
  shows "Number_toString_pos x = digits x"
proof -
  define t where "t = trailing_zeros x"
  define s where "s = x div 10 ^ t"
  have dec: "s * 10 ^ t = x" "0 < s"
    using trailing_zeros_decomp [OF assms(1)] by (simp_all add: s_def t_def)
  have dx: "digits x = digits s @ replicate t (CHR ''0'')"
    using digits_times_power [OF dec(2), of t] dec(1) by simp
  have "length (digits x) \<le> 21"
    using length_digits_le [of 21 x] assms(2) by simp
  then have "length (digits s) + t \<le> 21" by (simp add: dx)
  then show ?thesis
    by (simp add: Number_toString_pos_def Let_def dx s_def [symmetric] t_def [symmetric])
qed

lemma Number_toString_nat: "x < 10 ^ 21 \<Longrightarrow> Number_toString (int x) = digits x"
  by (cases "x = 0")
    (simp_all add: Number_toString_def Number_toString_pos_digits digits_small digit_simps)

lemma Number_toString_int:
  "0 \<le> i \<Longrightarrow> i < 10 ^ 21 \<Longrightarrow> Number_toString i = digits (nat i)"
  using Number_toString_nat [of "nat i"] by (simp add: nat_less_iff)

lemma padStart_zero: "padStart 2 ''0'' ds = zero_pad2 ds"
  by (simp add: padStart_def zero_pad2_def)

subsection \<open>The digits denote the number\<close>

lemma digit_value_digit: "d < 10 \<Longrightarrow> digit_value (digit d) = d"
  by (simp add: digit_value_def of_char_digit)

lemma is_digit_digit: "d < 10 \<Longrightarrow> is_digit (digit d)"
  by (simp add: is_digit_def of_char_digit)

lemma decimal_value_snoc:
  "decimal_value (ds @ [c]) = 10 * decimal_value ds + digit_value c"
  by (simp add: decimal_value_def)

lemma decimal_value_digits: "decimal_value (digits n) = n"
proof (induction n rule: digits.induct)
  case (1 s)
  show ?case
  proof (cases "s < 10")
    case True
    then show ?thesis by (simp add: digits_small decimal_value_def digit_value_digit)
  next
    case False
    then have "decimal_value (digits (s div 10)) = s div 10" using "1.IH" by simp
    then show ?thesis
      using False by (simp add: digits_big decimal_value_snoc digit_value_digit)
  qed
qed

lemma digits_all_digits: "list_all is_digit (digits n)"
proof (induction n rule: digits.induct)
  case (1 s)
  show ?case
  proof (cases "s < 10")
    case True
    then show ?thesis by (simp add: digits_small is_digit_digit)
  next
    case False
    then show ?thesis using "1.IH" by (simp add: digits_big is_digit_digit)
  qed
qed

lemma digits_nonempty: "digits n \<noteq> []"
  by (cases "n < 10") (simp_all add: digits_small digits_big)

lemma digits_no_leading_zero: "0 < n \<Longrightarrow> hd (digits n) \<noteq> CHR ''0''"
proof (induction n rule: digits.induct)
  case (1 s)
  show ?case
  proof (cases "s < 10")
    case True
    have "of_char (digit s) \<noteq> (of_char (CHR ''0'') :: nat)"
      using True "1.prems" by (simp add: of_char_digit)
    then have "digit s \<noteq> CHR ''0''" by auto
    then show ?thesis using True by (simp add: digits_small)
  next
    case False
    then have "0 < s div 10" by simp
    then have "hd (digits (s div 10)) \<noteq> CHR ''0''" using "1.IH" False by simp
    then show ?thesis using False by (simp add: digits_big digits_nonempty)
  qed
qed

lemma length_zero_pad2: "length (zero_pad2 ds) = max 2 (length ds)"
  by (simp add: zero_pad2_def)

lemma zero_pad2_long: "2 \<le> length ds \<Longrightarrow> zero_pad2 ds = ds"
  by (simp add: zero_pad2_def)

subsection \<open>trim\<close>

lemma trim_decomp:
  "s = takeWhile isWhiteSpace s @ trim s
         @ rev (takeWhile isWhiteSpace (rev (dropWhile isWhiteSpace s)))"
proof -
  define m where "m = dropWhile isWhiteSpace s"
  have "rev (dropWhile isWhiteSpace (rev m)) @ rev (takeWhile isWhiteSpace (rev m))
      = rev (takeWhile isWhiteSpace (rev m) @ dropWhile isWhiteSpace (rev m))"
    by (simp only: rev_append)
  also have "\<dots> = rev (rev m)" by (simp only: takeWhile_dropWhile_id)
  finally have "m = trim s @ rev (takeWhile isWhiteSpace (rev m))"
    by (simp add: trim_def m_def)
  moreover have "s = takeWhile isWhiteSpace s @ m" by (simp add: m_def)
  ultimately show ?thesis unfolding m_def by metis
qed

lemma trim_ends:
  assumes "trim s \<noteq> []"
  shows "\<not> isWhiteSpace (hd (trim s))" and "\<not> isWhiteSpace (last (trim s))"
proof -
  define m where "m = dropWhile isWhiteSpace s"
  define r where "r = dropWhile isWhiteSpace (rev m)"
  have t: "trim s = rev r" by (simp add: trim_def r_def m_def)
  with assms have r: "r \<noteq> []" by simp
  then have "\<not> isWhiteSpace (hd r)" unfolding r_def by (rule hd_dropWhile)
  then show "\<not> isWhiteSpace (last (trim s))" using r by (simp add: t last_rev)
  from r have m: "m \<noteq> []" by (auto simp: r_def)
  then have hm: "\<not> isWhiteSpace (hd m)" unfolding m_def by (rule hd_dropWhile)
  have "rev m = takeWhile isWhiteSpace (rev m) @ r" by (simp add: r_def)
  then have "last (rev m) = last r" using r by (metis last_appendR)
  then have "hd m = last r" using m by (simp add: last_rev)
  then show "\<not> isWhiteSpace (hd (trim s))" using hm r by (simp add: t hd_rev)
qed

lemma trim_prefix:
  assumes "\<not> isWhiteSpace c"
  shows "\<exists>ws. c # s = trim (c # s) @ ws \<and> list_all isWhiteSpace ws"
proof -
  have "takeWhile isWhiteSpace (c # s) = []" using assms by simp
  then have "c # s = trim (c # s)
      @ rev (takeWhile isWhiteSpace (rev (dropWhile isWhiteSpace (c # s))))"
    using trim_decomp [of "c # s"] by simp
  moreover have "list_all isWhiteSpace
      (rev (takeWhile isWhiteSpace (rev (dropWhile isWhiteSpace (c # s)))))"
    by (simp add: list_all_iff) (meson set_takeWhileD)
  ultimately show ?thesis by blast
qed

lemma trim_nonempty: "\<not> isWhiteSpace c \<Longrightarrow> trim (c # s) \<noteq> []"
  by (simp add: trim_def)

section \<open>formatTime\<close>

lemma floor_div60_bounds:
  fixes s :: real
  assumes "0 \<le> s" "s < 6 * 10 ^ 22"
  shows "0 \<le> \<lfloor>s / 60\<rfloor>" "\<lfloor>s / 60\<rfloor> < 10 ^ 21"
proof -
  show "0 \<le> \<lfloor>s / 60\<rfloor>" using assms(1) by simp
  have "s / 60 < 10 ^ 21" using assms(2) by simp
  then show "\<lfloor>s / 60\<rfloor> < 10 ^ 21" by (simp add: floor_less_iff)
qed

lemma remainder_60:
  fixes s :: real
  assumes "0 \<le> s"
  shows "Number_remainder s 60 = s - 60 * of_int \<lfloor>s / 60\<rfloor>"
  using assms by (simp add: Number_remainder_def truncate_quotient_def)

lemma floor_remainder_bounds:
  fixes s :: real
  shows "0 \<le> \<lfloor>s - 60 * of_int \<lfloor>s / 60\<rfloor>\<rfloor>"
    and "\<lfloor>s - 60 * of_int \<lfloor>s / 60\<rfloor>\<rfloor> < 60"
proof -
  have a: "of_int \<lfloor>s / 60\<rfloor> \<le> s / 60" by (rule of_int_floor_le)
  have b: "s / 60 < of_int \<lfloor>s / 60\<rfloor> + 1" by linarith
  from a have "0 \<le> s - 60 * of_int \<lfloor>s / 60\<rfloor>" by linarith
  then show "0 \<le> \<lfloor>s - 60 * of_int \<lfloor>s / 60\<rfloor>\<rfloor>" by simp
  from b have "s - 60 * of_int \<lfloor>s / 60\<rfloor> < 60" by linarith
  then show "\<lfloor>s - 60 * of_int \<lfloor>s / 60\<rfloor>\<rfloor> < 60" by (simp add: floor_less_iff)
qed

lemma seconds_field_two_digits:
  fixes s :: real
  shows "length (zero_pad2 (digits (nat \<lfloor>s - 60 * of_int \<lfloor>s / 60\<rfloor>\<rfloor>))) = 2"
proof -
  have "nat \<lfloor>s - 60 * of_int \<lfloor>s / 60\<rfloor>\<rfloor> < 100"
    using floor_remainder_bounds [of s] by linarith
  then have "nat \<lfloor>s - 60 * of_int \<lfloor>s / 60\<rfloor>\<rfloor> < 10 ^ 2" by simp
  then have "length (digits (nat \<lfloor>s - 60 * of_int \<lfloor>s / 60\<rfloor>\<rfloor>)) \<le> 2"
    by (intro length_digits_le) simp_all
  then show ?thesis by (simp add: length_zero_pad2)
qed

lemma formatTime_parts:
  "formatTime s = padStart 2 ''0'' (Number_toString (Math_floor (s / 60))) @ '':'' @
     padStart 2 ''0'' (Number_toString (Math_floor (Number_remainder s 60)))"
  by (simp add: formatTime_def Let_def)

lemmas eval_formatTime = formatTime_def Math_floor_def Number_remainder_def
  truncate_quotient_def padStart_def eval_digits

text \<open>The examples of the specification, a fractional and a three-digit one.\<close>

lemma formatTime_125: "formatTime 125 = ''02:05''"
  by (simp add: eval_formatTime)

lemma formatTime_59: "formatTime 59 = ''00:59''"
  by (simp add: eval_formatTime)

lemma formatTime_3661: "formatTime 3661 = ''61:01''"
  by (simp add: eval_formatTime)

lemma formatTime_fraction: "formatTime 125.7 = ''02:05''"
  by (simp add: eval_formatTime)

lemma formatTime_6000: "formatTime 6000 = ''100:00''"
  by (simp add: eval_formatTime)

text \<open>
  C2, as amended. For every number of seconds \<open>s\<close> with \<open>0 \<le> s < 2 ^ 53\<close>, \<open>formatTime\<close> returns
  the minute count \<open>floor (s / 60)\<close> in decimal, padded with zeros on the left to at least two
  digits and never cut, then a colon, then \<open>floor (s mod 60)\<close> padded to two digits.

  The bound is the one up to which exact arithmetic is the arithmetic of the code. Beyond
  it the claim fails in two ways. The quotient is rounded to a double, which can reach the
  next integer: for \<open>s = 67553994410557496\<close>, that is \<open>60 * 2 ^ 50 + 56\<close>, the code prints the
  minute count \<open>1125899906842625\<close> where \<open>floor (s / 60)\<close> is \<open>1125899906842624\<close>. And large minute
  counts are not printed digit by digit; the counterexample below is the case where no
  rounding is involved.
\<close>

theorem formatTime_matches_spec:
  assumes "0 \<le> s" "s < 2 ^ 53"
  shows "formatTime s = formatTime_spec s"
proof -
  have "(2::real) ^ 53 < 6 * 10 ^ 22" by simp
  with assms(2) have wide: "s < 6 * 10 ^ 22" by linarith
  have m: "Number_toString \<lfloor>s / 60\<rfloor> = digits (nat \<lfloor>s / 60\<rfloor>)"
    using floor_div60_bounds [OF assms(1) wide] by (rule Number_toString_int)
  have "\<lfloor>s - 60 * of_int \<lfloor>s / 60\<rfloor>\<rfloor> < 10 ^ 21"
    using floor_remainder_bounds(2) [of s] by simp
  then have r: "Number_toString \<lfloor>s - 60 * of_int \<lfloor>s / 60\<rfloor>\<rfloor>
      = digits (nat \<lfloor>s - 60 * of_int \<lfloor>s / 60\<rfloor>\<rfloor>)"
    using floor_remainder_bounds(1) [of s] by (simp add: Number_toString_int)
  show ?thesis
    by (simp add: formatTime_def formatTime_spec_def Math_floor_def Let_def
        remainder_60 [OF assms(1)] m r padStart_zero)
qed

theorem formatTime_matches_spec_witness:
  "(0::real) \<le> 3661 \<and> (3661::real) < 2 ^ 53
     \<and> formatTime 3661 = formatTime_spec 3661 \<and> formatTime_spec 3661 = ''61:01''"
proof -
  have "formatTime_spec 3661 = ''61:01''"
    by (simp add: formatTime_spec_def zero_pad2_def eval_digits)
  moreover have "formatTime 3661 = formatTime_spec 3661"
    by (rule formatTime_matches_spec) simp_all
  ultimately show ?thesis by simp
qed

text \<open>
  From \<open>10 ^ 21\<close> minutes on the minute count is no longer printed digit by digit:
  \<^verbatim>\<open>(1e21).toString()\<close> is \<^verbatim>\<open>"1e+21"\<close>. At \<open>s = 6 * 10 ^ 22\<close> both \<open>s\<close> and its quotient by
  60 are doubles, so no rounding is involved.
\<close>

lemma floor_6e22: "Math_floor (6 * 10 ^ 22 / 60) = 10 ^ 21"
  by (simp add: Math_floor_def)

lemma remainder_6e22: "Number_remainder (6 * 10 ^ 22) 60 = 0"
  by (simp add: Number_remainder_def truncate_quotient_def)

lemma Number_toString_1e21: "Number_toString (10 ^ 21) = ''1e+21''"
  by (simp add: eval_digits)

lemma digits_1e21: "digits (10 ^ 21) = ''1000000000000000000000''"
  by (simp add: eval_digits)

theorem formatTime_exponent_counterexample:
  "formatTime (6 * 10 ^ 22) = ''1e+21:00''
     \<and> formatTime_spec (6 * 10 ^ 22) = ''1000000000000000000000:00''"
proof -
  have code: "formatTime (6 * 10 ^ 22) = ''1e+21:00''"
    unfolding formatTime_parts floor_6e22 remainder_6e22 Number_toString_1e21
    by (simp add: padStart_def Math_floor_def Number_toString_def)
  have a: "nat \<lfloor>(6 * 10 ^ 22 :: real) / 60\<rfloor> = 10 ^ 21" by simp
  have b: "nat \<lfloor>(6 * 10 ^ 22 :: real) - 60 * of_int \<lfloor>(6 * 10 ^ 22 :: real) / 60\<rfloor>\<rfloor> = 0"
    by simp
  have spec: "formatTime_spec (6 * 10 ^ 22) = ''1000000000000000000000:00''"
    unfolding formatTime_spec_def a b digits_1e21
    by (simp add: zero_pad2_def digits_small digit_simps)
  from code spec show ?thesis by simp
qed

section \<open>getModjoTranscripts\<close>

lemma world_simps [simp]:
  "modjo_posts (console_log m w) = modjo_posts w"
  "modjo_posts (console_error m x w) = modjo_posts w"
  "modjo_posts (posted p w) = modjo_posts w @ [p]"
  "dust_posts (console_log m w) = dust_posts w"
  "dust_posts (console_error m x w) = dust_posts w"
  "dust_posts (posted p w) = dust_posts w"
  "console (console_log m w) = console w @ [Console_log m]"
  "console (console_error m x w) = console w @ [Console_error m x]"
  "console (posted p w) = console w"
  by (simp_all add: console_log_def console_error_def posted_def)

lemma loop_rejected:
  "modjoApi page = Rejected e \<Longrightarrow>
   getModjoTranscripts_loop modjoApi acc page w =
     Some (acc, console_error ''Error fetching Modjo transcripts:'' (rejection_payload e)
                  (posted page w))"
  by (subst getModjoTranscripts_loop.simps) simp

lemma loop_last:
  "modjoApi page = Fulfilled r \<Longrightarrow> lastPage r \<le> of_int page \<Longrightarrow>
   \<exists>w'. getModjoTranscripts_loop modjoApi acc page w = Some (acc @ values' r, w')
       \<and> modjo_posts w' = modjo_posts w @ [page] \<and> dust_posts w' = dust_posts w"
  by (subst getModjoTranscripts_loop.simps) (simp add: Let_def)

lemma loop_next:
  "modjoApi page = Fulfilled r \<Longrightarrow> of_int page < lastPage r \<Longrightarrow>
   \<exists>w'. getModjoTranscripts_loop modjoApi acc page w = getModjoTranscripts_loop modjoApi (acc @ values' r) (page + 1) w'
       \<and> modjo_posts w' = modjo_posts w @ [page] \<and> dust_posts w' = dust_posts w
       \<and> (\<exists>line. console w' = console w @ [line])"
  apply (subst getModjoTranscripts_loop.simps)
  apply (simp add: Let_def)
  apply (rule exI, rule conjI, rule refl)
  apply simp
  done

lemma map_upt_shift: "p # map (\<lambda>i. p + 1 + int i) [0..<n] = map (\<lambda>i. p + int i) [0..<Suc n]"
proof -
  have "map (\<lambda>i. p + int i) [0..<Suc n] = (p + int 0) # map (\<lambda>i. p + int (Suc i)) [0..<n]"
    by (rule map_upt_Suc)
  then show ?thesis by (simp add: add.commute add.left_commute del: upt_Suc)
qed

lemma loop_continue:
  assumes "\<forall>i<length ds. modjoApi (p + int i) = Fulfilled (ds ! i)
              \<and> of_int (p + int i) < lastPage (ds ! i)"
  shows "\<exists>w'. getModjoTranscripts_loop modjoApi acc p w
            = getModjoTranscripts_loop modjoApi (acc @ concat (map values' ds)) (p + int (length ds)) w'
          \<and> modjo_posts w' = modjo_posts w @ map (\<lambda>i. p + int i) [0..<length ds]
          \<and> dust_posts w' = dust_posts w"
  using assms
proof (induction ds arbitrary: acc p w)
  case Nil
  show ?case by (intro exI [of _ w]) simp
next
  case (Cons d ds)
  from Cons.prems have here: "modjoApi p = Fulfilled d" "of_int p < lastPage d"
    by force+
  from loop_next [of modjoApi p d, OF here] obtain w1 where w1:
    "getModjoTranscripts_loop modjoApi acc p w = getModjoTranscripts_loop modjoApi (acc @ values' d) (p + 1) w1"
    "modjo_posts w1 = modjo_posts w @ [p]" "dust_posts w1 = dust_posts w"
    by blast
  have later: "\<forall>i<length ds. modjoApi (p + 1 + int i) = Fulfilled (ds ! i)
                 \<and> of_int (p + 1 + int i) < lastPage (ds ! i)"
  proof (intro allI impI)
    fix i assume "i < length ds"
    then have "Suc i < length (d # ds)" by simp
    from Cons.prems [rule_format, OF this] show
      "modjoApi (p + 1 + int i) = Fulfilled (ds ! i) \<and> of_int (p + 1 + int i) < lastPage (ds ! i)"
      by (simp add: add.assoc add.commute add.left_commute)
  qed
  from Cons.IH [OF later, of "acc @ values' d" w1] obtain w2 where w2:
    "getModjoTranscripts_loop modjoApi (acc @ values' d) (p + 1) w1
       = getModjoTranscripts_loop modjoApi ((acc @ values' d) @ concat (map values' ds)) (p + 1 + int (length ds)) w2"
    "modjo_posts w2 = modjo_posts w1 @ map (\<lambda>i. p + 1 + int i) [0..<length ds]"
    "dust_posts w2 = dust_posts w1"
    by blast
  have pages: "modjo_posts w2 = modjo_posts w @ map (\<lambda>i. p + int i) [0..<length (d # ds)]"
    using w2(2) w1(2) map_upt_shift [of p "length ds"] by simp
  have "getModjoTranscripts_loop modjoApi acc p w
      = getModjoTranscripts_loop modjoApi (acc @ concat (map values' (d # ds))) (p + int (length (d # ds))) w2"
    using w1(1) w2(1) by (simp add: add.assoc add.commute add.left_commute)
  with pages w2(3) w1(3) show ?case by metis
qed

lemma pages_from_one: "map (\<lambda>i. 1 + int i) [0..<n] = [1..int n]"
proof (induction n)
  case 0
  then show ?case by simp
next
  case (Suc n)
  have "[1..int (Suc n)] = [1..int n] @ [int n + 1]"
    by (simp add: upto_rec2 add.commute)
  then show ?case using Suc by (simp add: add.commute)
qed

text \<open>
  C1. Let \<open>ds\<close> be any non-empty sequence of page responses such that page \<open>i\<close> is answered
  by the \<open>i\<close>-th of them, every response but the last reports a last page beyond its own
  index and the last one does not. Then the extractor requests the pages \<open>1, 2, ..., length ds\<close>
  in this order and no other, and returns the record slices of the responses concatenated in
  page order, each slice in its own order. The witness is a source reporting \<open>lastPage = 3\<close>
  with three different batches.
\<close>

theorem getModjoTranscripts_concat:
  assumes "ds \<noteq> []"
    and "\<forall>i<length ds. modjoApi (1 + int i) = Fulfilled (ds ! i)"
    and "\<forall>i<length ds - 1. of_int (1 + int i) < lastPage (ds ! i)"
    and "lastPage (last ds) \<le> of_int (int (length ds))"
  shows "\<exists>w'. getModjoTranscripts modjoApi w = Some (concat (map values' ds), w')
           \<and> modjo_posts w' = modjo_posts w @ [1..int (length ds)]"
proof -
  define front where "front = butlast ds"
  have ds: "ds = front @ [last ds]" using assms(1) by (simp add: front_def)
  have len: "length ds = Suc (length front)" by (simp add: front_def assms(1) Suc_pred)
  have cont: "\<forall>i<length front. modjoApi (1 + int i) = Fulfilled (front ! i)
                \<and> of_int (1 + int i) < lastPage (front ! i)"
  proof (intro allI impI)
    fix i assume i: "i < length front"
    then have "front ! i = ds ! i" by (simp add: front_def nth_butlast)
    moreover have "i < length ds" "i < length ds - 1" using i len by simp_all
    ultimately show "modjoApi (1 + int i) = Fulfilled (front ! i)
        \<and> of_int (1 + int i) < lastPage (front ! i)"
      using assms(2,3) by simp
  qed
  from loop_continue [OF cont, of "[]" w] obtain w1 where w1:
    "getModjoTranscripts_loop modjoApi [] 1 w
       = getModjoTranscripts_loop modjoApi (concat (map values' front)) (1 + int (length front)) w1"
    "modjo_posts w1 = modjo_posts w @ map (\<lambda>i. 1 + int i) [0..<length front]"
    by auto
  have "ds ! length front = last ds" using ds by (metis nth_append_length)
  then have final: "modjoApi (1 + int (length front)) = Fulfilled (last ds)"
    using assms(2) len by (metis lessI)
  have stop: "lastPage (last ds) \<le> of_int (1 + int (length front))"
    using assms(4) len by (simp add: add.commute)
  from loop_last [of modjoApi "1 + int (length front)" "last ds", OF final stop,
      of "concat (map values' front)" w1] obtain w2 where w2:
    "getModjoTranscripts_loop modjoApi (concat (map values' front)) (1 + int (length front)) w1
       = Some (concat (map values' front) @ values' (last ds), w2)"
    "modjo_posts w2 = modjo_posts w1 @ [1 + int (length front)]"
    by blast
  have res: "concat (map values' front) @ values' (last ds) = concat (map values' ds)"
    by (subst (2) ds) simp
  have "modjo_posts w2 = modjo_posts w @ map (\<lambda>i. 1 + int i) [0..<length ds]"
    using w2(2) w1(2) by (simp add: len)
  then have "modjo_posts w2 = modjo_posts w @ [1..int (length ds)]"
    by (simp only: pages_from_one)
  with w1(1) w2(1) res show ?thesis by (simp add: getModjoTranscripts_def)
qed

text \<open>
  C3. If the pages \<open>1, ..., k - 1\<close> are answered by the responses \<open>ds\<close>, each reporting a later
  last page, and the request for page \<open>k\<close> fails (with or without a response), then the
  extractor returns normally, with exactly the records of \<open>ds\<close>; page \<open>k\<close> is the last one it
  requests and the failure is the last line it prints. The witness fails on page 2 and
  returns the batch of page 1.
\<close>

theorem getModjoTranscripts_partial_on_failure:
  assumes "\<forall>i<length ds. modjoApi (1 + int i) = Fulfilled (ds ! i)
              \<and> of_int (1 + int i) < lastPage (ds ! i)"
    and "modjoApi (1 + int (length ds)) = Rejected e"
  shows "\<exists>w'. getModjoTranscripts modjoApi w = Some (concat (map values' ds), w')
           \<and> modjo_posts w' = modjo_posts w @ [1..int (length ds) + 1]
           \<and> last (console w')
               = Console_error ''Error fetching Modjo transcripts:'' (rejection_payload e)"
proof -
  from loop_continue [OF assms(1), of "[]" w] obtain w1 where w1:
    "getModjoTranscripts_loop modjoApi [] 1 w
       = getModjoTranscripts_loop modjoApi (concat (map values' ds)) (1 + int (length ds)) w1"
    "modjo_posts w1 = modjo_posts w @ map (\<lambda>i. 1 + int i) [0..<length ds]"
    by auto
  define w2 where "w2 = console_error ''Error fetching Modjo transcripts:'' (rejection_payload e)
                  (posted (1 + int (length ds)) w1)"
  have r: "getModjoTranscripts_loop modjoApi (concat (map values' ds)) (1 + int (length ds)) w1
      = Some (concat (map values' ds), w2)"
    unfolding w2_def
    by (rule loop_rejected [of modjoApi "1 + int (length ds)" e, OF assms(2)])
  have "modjo_posts w2 = modjo_posts w @ map (\<lambda>i. 1 + int i) [0..<Suc (length ds)]"
    using w1(2) by (simp add: w2_def)
  then have "modjo_posts w2 = modjo_posts w @ [1..int (length ds) + 1]"
    by (simp only: pages_from_one) (simp add: add.commute)
  moreover have "last (console w2)
      = Console_error ''Error fetching Modjo transcripts:'' (rejection_payload e)"
    by (simp add: w2_def)
  ultimately show ?thesis using w1(1) r by (simp add: getModjoTranscripts_def)
qed

lemma loop_bounded:
  assumes bound: "\<forall>p r. modjoApi p = Fulfilled r \<longrightarrow> lastPage r \<le> of_int L"
  shows "\<exists>ts w' ps. getModjoTranscripts_loop modjoApi acc p w = Some (ts, w')
           \<and> modjo_posts w' = modjo_posts w @ ps \<and> 1 \<le> length ps
           \<and> int (length ps) \<le> max 1 (L - p + 1)"
proof (induction "nat (L - p)" arbitrary: p acc w rule: less_induct)
  case less
  show ?case
  proof (cases "modjoApi p")
    case (Rejected e)
    have "modjo_posts (console_error ''Error fetching Modjo transcripts:'' (rejection_payload e)
        (posted p w)) = modjo_posts w @ [p]" by simp
    then show ?thesis
      using loop_rejected [of modjoApi p e acc w, OF Rejected] 
      by (intro exI [of _ acc] exI [of _ "console_error ''Error fetching Modjo transcripts:'' (rejection_payload e)
        (posted p w)"] exI [of _ "[p]"]) simp
  next
    case (Fulfilled r)
    show ?thesis
    proof (cases "lastPage r \<le> of_int p")
      case True
      from loop_last [of modjoApi p r acc w, OF Fulfilled True] obtain w' where
        "getModjoTranscripts_loop modjoApi acc p w = Some (acc @ values' r, w')"
        "modjo_posts w' = modjo_posts w @ [p]" by blast
      then show ?thesis 
        by (intro exI [of _ "acc @ values' r"] exI [of _ w'] exI [of _ "[p]"]) simp
    next
      case False
      then have more: "of_int p < lastPage r" by simp
      have "lastPage r \<le> of_int L" using bound Fulfilled by blast
      with more have "(of_int p :: real) < of_int L" by linarith
      then have pL: "p < L" by simp
      from loop_next [of modjoApi p r acc w, OF Fulfilled more] obtain w1 where w1:
        "getModjoTranscripts_loop modjoApi acc p w = getModjoTranscripts_loop modjoApi (acc @ values' r) (p + 1) w1"
        "modjo_posts w1 = modjo_posts w @ [p]" by blast
      have "nat (L - (p + 1)) < nat (L - p)" using pL by simp
      from less [OF this, of "acc @ values' r" w1] obtain ts w' ps where rest:
        "getModjoTranscripts_loop modjoApi (acc @ values' r) (p + 1) w1 = Some (ts, w')"
        "modjo_posts w' = modjo_posts w1 @ ps" "1 \<le> length ps"
        "int (length ps) \<le> max 1 (L - (p + 1) + 1)" by blast
      have "int (length (p # ps)) \<le> max 1 (L - p + 1)" using rest(4) pL by simp
      moreover have "modjo_posts w' = modjo_posts w @ p # ps" using rest(2) w1(2) by simp
      ultimately show ?thesis using w1(1) rest(1)
        by (intro exI [of _ ts] exI [of _ w'] exI [of _ "p # ps"]) simp
    qed
  qed
qed

text \<open>
  C10. If every page response reports a last page of at most \<open>L\<close>, the extractor returns, and
  it has then issued at least one and at most \<open>max 1 L\<close> page requests (one request is made
  even when the first response reports a last page below 1 or no records).
\<close>

theorem getModjoTranscripts_terminates:
  assumes "\<forall>p r. modjoApi p = Fulfilled r \<longrightarrow> lastPage r \<le> of_int L"
  shows "\<exists>ts w' ps. getModjoTranscripts modjoApi w = Some (ts, w')
           \<and> modjo_posts w' = modjo_posts w @ ps \<and> 1 \<le> length ps
           \<and> int (length ps) \<le> max 1 L"
  using loop_bounded [OF assms, of "[]" 1 w] by (simp add: getModjoTranscripts_def)

theorem getModjoTranscripts_concat_witness:
  "\<exists>w'. getModjoTranscripts (serve three_pages) empty_world
           = Some ([example_call 1, example_call 2, example_call 3, example_call 4,
                    example_call 5], w')
       \<and> modjo_posts w' = [1, 2, 3]"
proof -
  have n: "three_pages \<noteq> []" "length three_pages = 3" by (simp_all add: three_pages_def)
  have a: "\<forall>i<length three_pages. serve three_pages (1 + int i) = Fulfilled (three_pages ! i)"
    by (simp add: serve_def)
  have b: "\<forall>i<length three_pages - 1. of_int (1 + int i) < lastPage (three_pages ! i)"
    by (simp add: three_pages_def less_Suc_eq numeral_2_eq_2 nth_Cons')
  have c: "lastPage (last three_pages) \<le> of_int (int (length three_pages))"
    by (simp add: three_pages_def)
  have v: "concat (map values' three_pages)
      = [example_call 1, example_call 2, example_call 3, example_call 4, example_call 5]"
    by (simp add: three_pages_def)
  have p: "modjo_posts empty_world @ [1..int (length three_pages)] = [1, 2, 3]"
    by (simp add: n empty_world_def upto_rec1)
  from getModjoTranscripts_concat [OF n(1) a b c, of empty_world] show ?thesis
    unfolding v p .
qed

theorem getModjoTranscripts_partial_on_failure_witness:
  "\<exists>w'. getModjoTranscripts (serve (take 1 three_pages)) empty_world
           = Some ([example_call 1, example_call 2], w')
       \<and> modjo_posts w' = [1, 2]
       \<and> last (console w')
           = Console_error ''Error fetching Modjo transcripts:'' ''Internal Server Error''"
proof -
  have a: "\<forall>i<length (take 1 three_pages).
        serve (take 1 three_pages) (1 + int i) = Fulfilled (take 1 three_pages ! i)
          \<and> of_int (1 + int i) < lastPage (take 1 three_pages ! i)"
    by (simp add: serve_def three_pages_def)
  have b: "serve (take 1 three_pages) (1 + int (length (take 1 three_pages)))
      = Rejected (AxiosResponseError ''Internal Server Error'')"
    by (simp add: serve_def three_pages_def)
  have v: "concat (map values' (take 1 three_pages)) = [example_call 1, example_call 2]"
    by (simp add: three_pages_def)
  have p: "modjo_posts empty_world @ [1..int (length (take 1 three_pages)) + 1] = [1, 2]"
    by (simp add: three_pages_def empty_world_def upto_rec1)
  have e: "rejection_payload (AxiosResponseError ''Internal Server Error'')
      = ''Internal Server Error''" by (simp add: rejection_payload_def)
  from getModjoTranscripts_partial_on_failure [OF a b, of empty_world] show ?thesis
    unfolding v p e .
qed

theorem getModjoTranscripts_terminates_witness:
  "\<exists>ts w' ps. getModjoTranscripts (serve three_pages) empty_world = Some (ts, w')
     \<and> modjo_posts w' = modjo_posts empty_world @ ps \<and> 1 \<le> length ps
     \<and> int (length ps) \<le> max 1 3"
proof -
  have "lastPage r \<le> 3" if "r \<in> set three_pages" for r
    using that by (auto simp: three_pages_def)
  then have a: "\<forall>p r. serve three_pages p = Fulfilled r \<longrightarrow> lastPage r \<le> of_int 3"
    by (auto simp: serve_def split: if_splits)
  from getModjoTranscripts_terminates [OF a, of empty_world] show ?thesis .
qed

text \<open>
  Without a bound on the reported last page the loop need not end: on a source whose
  every page is served and reports a later last page, the extractor never returns.
\<close>

lemma loop_returns_not_endless:
  assumes "getModjoTranscripts_loop modjoApi acc page w = Some y"
  shows "\<not> (\<forall>p\<ge>page. \<exists>r. modjoApi p = Fulfilled r \<and> of_int p < lastPage r)"
proof (rule getModjoTranscripts_loop.raw_induct
    [where P = "\<lambda>api acc page w y. \<not> (\<forall>p\<ge>page. \<exists>r. api p = Fulfilled r \<and> of_int p < lastPage r)",
      OF _ assms])
  fix loop api acc page w y
  assume IH: "\<And>api acc page w y. loop api acc page w = Some y \<Longrightarrow>
      \<not> (\<forall>p\<ge>page. \<exists>r. api p = Fulfilled r \<and> of_int p < lastPage r)"
    and eq: "(case api page of
        Fulfilled response \<Rightarrow>
          (let allTranscripts = acc @ values' response;
               w = console_log (''Retrieved '' @ Number_toString (int (length (values' response)))
                                  @ '' transcripts. Total: ''
                                  @ Number_toString (int (length allTranscripts)))
                     (posted page w)
           in if lastPage response \<le> of_int page then Some (allTranscripts, w)
              else loop api allTranscripts (page + 1) w)
      | Rejected e \<Rightarrow>
          Some (acc,
            console_error ''Error fetching Modjo transcripts:'' (rejection_payload e)
              (posted page w))) = Some y"
  show "\<not> (\<forall>p\<ge>page. \<exists>r. api p = Fulfilled r \<and> of_int p < lastPage r)"
  proof
    assume e: "\<forall>p\<ge>page. \<exists>r. api p = Fulfilled r \<and> of_int p < lastPage r"
    then obtain r where r: "api page = Fulfilled r" "of_int page < lastPage r"
      by auto
    from eq r obtain acc' w' where "loop api acc' (page + 1) w' = Some y"
      by (simp add: Let_def)
    then have "\<not> (\<forall>p\<ge>page + 1. \<exists>r. api p = Fulfilled r \<and> of_int p < lastPage r)"
      by (rule IH)
    with e show False by simp
  qed
qed

theorem getModjoTranscripts_never_returns:
  assumes "\<forall>p\<ge>1. \<exists>r. modjoApi p = Fulfilled r \<and> of_int p < lastPage r"
  shows "getModjoTranscripts modjoApi w = None"
proof (cases "getModjoTranscripts modjoApi w")
  case None
  then show ?thesis .
next
  case (Some y)
  then have "getModjoTranscripts_loop modjoApi [] 1 w = Some y"
    by (simp add: getModjoTranscripts_def)
  from loop_returns_not_endless [OF this] assms show ?thesis by blast
qed

theorem getModjoTranscripts_never_returns_witness:
  "getModjoTranscripts endless_source empty_world = None"
  by (rule getModjoTranscripts_never_returns) (simp add: endless_source_def)

section \<open>The rendered document\<close>

lemma lines_append [simp]: "lines (xs @ ys) = lines xs @ lines ys"
  by (simp add: lines_def)

lemma lines_Cons [simp]: "lines (x # xs) = x @ ''\<newline>'' @ lines xs"
  by (simp add: lines_def)

lemma lines_Nil [simp]: "lines [] = []"
  by (simp add: lines_def)

lemma fold_appends:
  assumes "\<And>x c. f x c = c @ g x"
  shows "fold f xs c = c @ concat (map g xs)"
  by (induction xs arbitrary: c) (simp_all add: assms)

lemma speakers_callback_appends:
  "speakers_callback fmt s acc = acc @ lines [speaker_line fmt s]"
  by (simp add: speakers_callback_def speaker_line_def optional_suffix_def truthy_def
      template_string_def Let_def split: option.splits)

lemma transcript_callback_appends:
  "transcript_callback fmt c e acc
     = acc @ lines (entry_lines fmt (speakers (relations c)) e)"
  by (simp add: transcript_callback_def entry_lines_def entry_line_def speaker_name_def Let_def
      split: option.splits)

lemma lines_concat_map: "concat (map (\<lambda>x. lines (f x)) xs) = lines (concat (map f xs))"
  by (induction xs) simp_all

lemma lines_map_single: "concat (map (\<lambda>x. lines [f x]) xs) = lines (map f xs)"
  by (induction xs) simp_all

lemma header_appends:
  "lines (header_lines fmt c) =
     ''Call ID: '' @ template_number fmt (callId c) @ ''\<newline>''
     @ ''Title: '' @ title c @ ''\<newline>''
     @ ''Date: '' @ startDate c @ ''\<newline>''
     @ ''Duration: '' @ template_number fmt (duration c) @ '' seconds\<newline>''
     @ ''Provider: '' @ provider c @ ''\<newline>''
     @ ''Language: '' @ language c @ ''\<newline>''
     @ (if truthy (callCrmId c) then ''CRM ID: '' @ template_string (callCrmId c) @ ''\<newline>'' else [])
     @ (case recording (relations c) of Some r \<Rightarrow> ''Recording URL: '' @ url r @ ''\<newline>'' | None \<Rightarrow> [])
     @ (if truthy (aiSummary (relations c)) then ''AI Summary: '' @ template_string (aiSummary (relations c)) @ ''\<newline>'' else [])"
  by (simp add: header_lines_def optional_line_def truthy_def template_string_def
      split: option.splits)

lemma build_content_lines: "build_content fmt c = lines (document_lines fmt c)"
proof -
  have sp: "fold (speakers_callback fmt) ss acc
      = acc @ lines (map (speaker_line fmt) ss)" for ss acc
    using fold_appends [of "speakers_callback fmt" "\<lambda>s. lines [speaker_line fmt s]" ss acc]
    by (simp add: speakers_callback_appends lines_def comp_def)
  have tr: "fold (transcript_callback fmt c) es acc
      = acc @ lines (concat (map (entry_lines fmt (speakers (relations c))) es))"
    for es acc
    using fold_appends [of "transcript_callback fmt c"
        "\<lambda>e. lines (entry_lines fmt (speakers (relations c)) e)" es acc]
    by (simp add: transcript_callback_appends lines_concat_map)
  show ?thesis
    unfolding document_lines_def lines_append header_appends
    by (simp add: build_content_def Let_def sp tr split: option.splits)
qed

lemma build_content_starts:
  "\<exists>s. lines (document_lines fmt c) = CHR ''C'' # s"
  by (simp add: document_lines_def header_lines_def)

lemma C_not_white: "\<not> isWhiteSpace (CHR ''C'')"
  by (simp add: isWhiteSpace_def)

lemma length_header_lines:
  "length (header_lines fmt c) =
     6 + (if truthy (callCrmId c) then 1 else 0)
       + (case recording (relations c) of None \<Rightarrow> 0 | Some r \<Rightarrow> 1)
       + (if truthy (aiSummary (relations c)) then 1 else 0)"
  by (simp add: header_lines_def optional_line_def truthy_def split: option.splits)

text \<open>
  C6. The text posted for a call is \<open>trim\<close> of the lines of \<open>document_lines\<close>, and these are,
  in this order: the header (call id, title, start date as the record holds it, duration in
  seconds as the number prints, provider, language, then the CRM id line, the recording URL
  line and the AI summary line, each only when its field is present, so that the header has
  six lines and one more per present optional field); an empty line and \<^verbatim>\<open>Speakers:\<close>; one
  line per speaker in the order of the record; an empty line and \<^verbatim>\<open>Transcript:\<close>; and for
  each entry in the order of the record its line, its topics line when it has topics, and an
  empty line. Trimming only removes white space at the end: the posted text is not empty,
  starts and ends with a character that is not white space, and the untrimmed content is
  the posted text followed by white space.
\<close>

theorem document_layout:
  "text' (dust_request fmt cfg c) = trim (lines (document_lines fmt c))
   \<and> build_content fmt c = lines (document_lines fmt c)
   \<and> length (header_lines fmt c) =
       6 + (if truthy (callCrmId c) then 1 else 0)
         + (case recording (relations c) of None \<Rightarrow> 0 | Some r \<Rightarrow> 1)
         + (if truthy (aiSummary (relations c)) then 1 else 0)
   \<and> (\<exists>ws. lines (document_lines fmt c) = text' (dust_request fmt cfg c) @ ws
          \<and> list_all isWhiteSpace ws)
   \<and> text' (dust_request fmt cfg c) \<noteq> []
   \<and> \<not> isWhiteSpace (hd (text' (dust_request fmt cfg c)))
   \<and> \<not> isWhiteSpace (last (text' (dust_request fmt cfg c)))"
proof -
  have t: "text' (dust_request fmt cfg c) = trim (lines (document_lines fmt c))"
    by (simp add: dust_request_def build_content_lines)
  obtain s where s: "lines (document_lines fmt c) = CHR ''C'' # s"
    using build_content_starts by blast
  have ne: "trim (CHR ''C'' # s) \<noteq> []" using C_not_white by (rule trim_nonempty)
  have "(\<exists>ws. lines (document_lines fmt c) = text' (dust_request fmt cfg c) @ ws
          \<and> list_all isWhiteSpace ws)
   \<and> text' (dust_request fmt cfg c) \<noteq> []
   \<and> \<not> isWhiteSpace (hd (text' (dust_request fmt cfg c)))
   \<and> \<not> isWhiteSpace (last (text' (dust_request fmt cfg c)))"
    unfolding t s
    using trim_prefix [OF C_not_white, of s] trim_ends [OF ne] ne by simp
  with t build_content_lines [of fmt c] length_header_lines [of fmt c] show ?thesis
    by simp
qed

lemma template_number_int:
  "template_number fmt (of_int i) = Number_toString i"
  by (simp add: template_number_def)

lemma template_number_numeral [simp]:
  "template_number fmt (numeral n) = Number_toString (numeral n)"
  "template_number fmt 1 = Number_toString 1"
  "template_number fmt 0 = Number_toString 0"
  by (simp_all add: template_number_def)

lemma kickoff_lines:
  "document_lines integral_only kickoff_call =
     [''Call ID: 42'', ''Title: Kickoff'', ''Date: 2024-03-01T10:00:00Z'',
      ''Duration: 125 seconds'', ''Provider: aircall'', ''Language: en'', ''CRM ID: crm-7'',
      ''Recording URL: https://rec/42'',
      [], ''Speakers:'', ''1: Ann (user) - Email: ann@x.io'', ''2: Bob (contact) - Phone: +331'',
      [], ''Transcript:'', ''[00:00 - 00:59] Ann: Hello'', ''Topics: intro, pricing'', [],
      ''[00:59 - 02:05] Speaker 9: Hi '', []]"
  by (simp add: document_lines_def header_lines_def optional_line_def speaker_line_def
      optional_suffix_def entry_lines_def entry_line_def speaker_name_def kickoff_call_def
      eval_formatTime)

theorem document_layout_witness:
  "text' (dust_request integral_only example_config kickoff_call) =
     ''Call ID: 42\<newline>Title: Kickoff\<newline>Date: 2024-03-01T10:00:00Z\<newline>Duration: 125 seconds\<newline>Provider: aircall\<newline>Language: en\<newline>CRM ID: crm-7\<newline>Recording URL: https://rec/42\<newline>\<newline>Speakers:\<newline>1: Ann (user) - Email: ann@x.io\<newline>2: Bob (contact) - Phone: +331\<newline>\<newline>Transcript:\<newline>[00:00 - 00:59] Ann: Hello\<newline>Topics: intro, pricing\<newline>\<newline>[00:59 - 02:05] Speaker 9: Hi''"
  using document_layout [of integral_only example_config kickoff_call, THEN conjunct1]
  unfolding kickoff_lines
  by (simp add: trim_def isWhiteSpace_def)

lemma lines_entry_lines:
  "\<exists>rest. lines (entry_lines fmt ss e)
      = entry_line (speaker_name fmt ss (TranscriptEntry.speakerId e)) e @ ''\<newline>'' @ rest"
  by (simp add: entry_lines_def)

lemma document_lines_split:
  assumes "i < length (transcript (relations c))"
  shows "document_lines fmt c =
           document_lines fmt (first_entries i c)
           @ entry_lines fmt (speakers (relations c)) (transcript (relations c) ! i)
           @ concat (map (entry_lines fmt (speakers (relations c)))
                      (drop (Suc i) (transcript (relations c))))"
proof -
  define es where "es = transcript (relations c)"
  have "es = take i es @ es ! i # drop (Suc i) es"
    using assms by (simp add: es_def id_take_nth_drop)
  then have "concat (map (entry_lines fmt (speakers (relations c))) es)
      = concat (map (entry_lines fmt (speakers (relations c))) (take i es))
        @ entry_lines fmt (speakers (relations c)) (es ! i)
        @ concat (map (entry_lines fmt (speakers (relations c))) (drop (Suc i) es))"
    by (metis concat.simps(2) concat_append list.simps(9) map_append)
  then show ?thesis
    by (simp add: document_lines_def first_entries_def header_lines_def es_def)
qed

lemma build_content_split:
  assumes "i < length (transcript (relations c))"
  shows "\<exists>rest. build_content fmt c =
           build_content fmt (first_entries i c)
           @ entry_line (speaker_name fmt (speakers (relations c))
                           (TranscriptEntry.speakerId (transcript (relations c) ! i)))
               (transcript (relations c) ! i)
           @ ''\<newline>'' @ rest"
proof -
  obtain r where r: "lines (entry_lines fmt (speakers (relations c)) (transcript (relations c) ! i))
      = entry_line (speaker_name fmt (speakers (relations c))
                           (TranscriptEntry.speakerId (transcript (relations c) ! i)))
               (transcript (relations c) ! i) @ ''\<newline>'' @ r"
    using lines_entry_lines by blast
  show ?thesis
    unfolding build_content_lines document_lines_split [OF assms, of fmt] lines_append r
    by simp
qed

lemma speaker_name_unresolved:
  "\<forall>s\<in>set ss. Speaker.speakerId s \<noteq> i \<Longrightarrow>
     speaker_name fmt ss i = ''Speaker '' @ template_number fmt i"
  by (simp add: speaker_name_def find_None_iff [THEN iffD2])

lemma speaker_name_resolved:
  "find (\<lambda>s. Speaker.speakerId s = i) ss = Some s \<Longrightarrow> speaker_name fmt ss i = Speaker.name s"
  by (simp add: speaker_name_def)

text \<open>
  C7. Take the \<open>i\<close>-th transcript entry of a call. The content built for the call is the
  content built for its first \<open>i\<close> entries, followed by the line of that entry. If no speaker
  of the call has the speaker id of the entry, the name in that line is \<^verbatim>\<open>Speaker\<close>, a
  space and the id as it prints; if the lookup finds a speaker (the first one with that id),
  the name is the name of that speaker. Rendering is a total function: there is no failure.
\<close>

theorem speaker_placeholder:
  assumes "i < length (transcript (relations c))"
  shows
    "((\<forall>s\<in>set (speakers (relations c)).
          Speaker.speakerId s \<noteq> TranscriptEntry.speakerId (transcript (relations c) ! i))
        \<longrightarrow> (\<exists>rest. build_content fmt c =
               build_content fmt (first_entries i c)
               @ entry_line (''Speaker '' @ template_number fmt
                     (TranscriptEntry.speakerId (transcript (relations c) ! i)))
                   (transcript (relations c) ! i)
               @ ''\<newline>'' @ rest))
     \<and> (\<forall>s. find (\<lambda>s. Speaker.speakerId s
                        = TranscriptEntry.speakerId (transcript (relations c) ! i))
                (speakers (relations c)) = Some s
        \<longrightarrow> (\<exists>rest. build_content fmt c =
               build_content fmt (first_entries i c)
               @ entry_line (Speaker.name s) (transcript (relations c) ! i)
               @ ''\<newline>'' @ rest))"
  using build_content_split [OF assms, of fmt]
  by (auto simp: speaker_name_unresolved speaker_name_resolved)







theorem speaker_placeholder_witness:
  "(\<exists>rest. build_content integral_only kickoff_call =
       build_content integral_only (first_entries 1 kickoff_call)
       @ ''[00:59 - 02:05] Speaker 9: Hi \<newline>'' @ rest)
   \<and> (\<exists>rest. build_content integral_only kickoff_call =
       build_content integral_only (first_entries 0 kickoff_call)
       @ ''[00:00 - 00:59] Ann: Hello\<newline>'' @ rest)"
proof -
  have l: "0 < length (transcript (relations kickoff_call))"
    "1 < length (transcript (relations kickoff_call))"
    by (simp_all add: kickoff_call_def)
  have e1: "transcript (relations kickoff_call) ! 1 =
      \<lparr>startTime = 59.5, endTime = 125, speakerId = 9, content = ''Hi '', topics = []\<rparr>"
    by (simp add: kickoff_call_def)
  have e0: "transcript (relations kickoff_call) ! 0 =
      \<lparr>startTime = 0, endTime = 59, speakerId = 1, content = ''Hello'',
        topics = [\<lparr>topicId = 1, name = ''intro''\<rparr>, \<lparr>topicId = 2, name = ''pricing''\<rparr>]\<rparr>"
    by (simp add: kickoff_call_def)
  have u: "\<forall>s\<in>set (speakers (relations kickoff_call)).
      Speaker.speakerId s \<noteq> TranscriptEntry.speakerId (transcript (relations kickoff_call) ! 1)"
    by (simp add: kickoff_call_def)
  have r: "find (\<lambda>s. Speaker.speakerId s
                        = TranscriptEntry.speakerId (transcript (relations kickoff_call) ! 0))
                (speakers (relations kickoff_call))
      = Some \<lparr>contactId = None, userId = Some 3, email = Some ''ann@x.io'', name = ''Ann'',
             phoneNumber = None, speakerId = 1, type = ''user''\<rparr>"
    by (simp add: kickoff_call_def)
  have line1: "entry_line (''Speaker '' @ template_number integral_only
                     (TranscriptEntry.speakerId (transcript (relations kickoff_call) ! 1)))
                   (transcript (relations kickoff_call) ! 1) = ''[00:59 - 02:05] Speaker 9: Hi ''"
    unfolding e1 by (simp add: entry_line_def eval_formatTime)
  have line0: "entry_line ''Ann'' (transcript (relations kickoff_call) ! 0)
      = ''[00:00 - 00:59] Ann: Hello''"
    unfolding e0 by (simp add: entry_line_def eval_formatTime)
  from speaker_placeholder [OF l(2), of integral_only] u
  have "\<exists>rest. build_content integral_only kickoff_call =
               build_content integral_only (first_entries 1 kickoff_call)
               @ entry_line (''Speaker '' @ template_number integral_only
                     (TranscriptEntry.speakerId (transcript (relations kickoff_call) ! 1)))
                   (transcript (relations kickoff_call) ! 1)
               @ ''\<newline>'' @ rest" by blast
  moreover from speaker_placeholder [OF l(1), of integral_only] r
  have "\<exists>rest. build_content integral_only kickoff_call =
               build_content integral_only (first_entries 0 kickoff_call)
               @ entry_line (Speaker.name \<lparr>contactId = None, userId = Some 3,
                     email = Some ''ann@x.io'', name = ''Ann'',
                     phoneNumber = None, speakerId = 1, type = ''user''\<rparr>)
                   (transcript (relations kickoff_call) ! 0)
               @ ''\<newline>'' @ rest" by blast
  ultimately show ?thesis unfolding line1 by (simp add: line0)
qed

section \<open>Publishing\<close>

lemma upsert_step:
  "dust_posts (upsertToDustDatasource fmt cfg dustApi c w)
     = dust_posts w @ [dust_request fmt cfg c]"
  "modjo_posts (upsertToDustDatasource fmt cfg dustApi c w) = modjo_posts w"
  "console (upsertToDustDatasource fmt cfg dustApi c w)
     = console w @ [upsert_report fmt c
                      (dustApi (length (dust_posts w)) (dust_request fmt cfg c))]"
  by (simp_all add: upsertToDustDatasource_def upsert_report_def Let_def console_log_def
      console_error_def split: settled.splits)

lemma upsert_all:
  "dust_posts (fold (upsertToDustDatasource fmt cfg dustApi) cs w)
     = dust_posts w @ map (dust_request fmt cfg) cs
   \<and> modjo_posts (fold (upsertToDustDatasource fmt cfg dustApi) cs w) = modjo_posts w
   \<and> console (fold (upsertToDustDatasource fmt cfg dustApi) cs w)
     = console w @ map (\<lambda>(k, c). upsert_report fmt c (dustApi k (dust_request fmt cfg c)))
                     (enumerate (length (dust_posts w)) cs)"
proof (induction cs arbitrary: w)
  case Nil
  show ?case by simp
next
  case (Cons c cs)
  show ?case
    using Cons.IH [of "upsertToDustDatasource fmt cfg dustApi c w"]
    by (simp add: upsert_step)
qed

lemma upsert_rejected:
  assumes "dustApi (length (dust_posts w)) (dust_request fmt cfg c) = Rejected e"
  shows "upsertToDustDatasource fmt cfg dustApi c w =
           console_error (''Error upserting transcript '' @ template_number fmt (callId c)
                            @ '' to Dust datasource:'') (rejection_payload e)
             (w\<lparr>dust_posts := dust_posts w @ [dust_request fmt cfg c]\<rparr>)"
  using assms by (simp add: upsertToDustDatasource_def Let_def)

lemma main_result:
  assumes "getModjoTranscripts modjoApi w = Some (cs, w1)"
  shows "\<exists>w'. main fmt cfg modjoApi dustApi w = Some w'
           \<and> dust_posts w' = dust_posts w1 @ map (dust_request fmt cfg) cs
           \<and> last (console w') = Console_log ''All transcripts processed successfully.''"
  using assms upsert_all [of fmt cfg dustApi cs
      "console_log (''Found '' @ Number_toString (int (length cs)) @ '' transcripts.'') w1"]
  by (simp add: main_def)

text \<open>
  C5. When the request for a call is rejected (with or without a response),
  \<^verbatim>\<open>upsertToDustDatasource\<close> returns the world in which the request was posted and one error
  line, which names the call id and carries the payload, was printed. Whatever Dust answers,
  the loop of \<^verbatim>\<open>main\<close> posts one request per record, in the order of the records, and
  prints one line per record that says how its request settled; so a failure on any subset
  of the records leaves the attempts for the other records in place. \<^verbatim>\<open>main\<close> returns
  whenever the extraction does.
\<close>

theorem upsert_failure_isolated:
  "(dustApi (length (dust_posts w)) (dust_request fmt cfg c) = Rejected e \<longrightarrow>
      upsertToDustDatasource fmt cfg dustApi c w =
        console_error (''Error upserting transcript '' @ template_number fmt (callId c)
                         @ '' to Dust datasource:'') (rejection_payload e)
          (w\<lparr>dust_posts := dust_posts w @ [dust_request fmt cfg c]\<rparr>))
   \<and> dust_posts (fold (upsertToDustDatasource fmt cfg dustApi) cs w)
       = dust_posts w @ map (dust_request fmt cfg) cs
   \<and> console (fold (upsertToDustDatasource fmt cfg dustApi) cs w)
       = console w @ map (\<lambda>(k, c). upsert_report fmt c (dustApi k (dust_request fmt cfg c)))
                       (enumerate (length (dust_posts w)) cs)
   \<and> (getModjoTranscripts modjoApi w = Some (cs, w1) \<longrightarrow>
        (\<exists>w'. main fmt cfg modjoApi dustApi w = Some w'
           \<and> dust_posts w' = dust_posts w1 @ map (dust_request fmt cfg) cs))"
  using upsert_rejected [of dustApi w fmt cfg c e] upsert_all [of fmt cfg dustApi cs w]
    main_result [of modjoApi w cs w1 fmt cfg dustApi]
  by blast

theorem upsert_failure_isolated_witness:
  "upsertToDustDatasource integral_only example_config first_fails (example_call 1) empty_world
     = \<lparr>console = [Console_error ''Error upserting transcript 1 to Dust datasource:''
                     ''Bad Request''],
        modjo_posts = [],
        dust_posts = [dust_request integral_only example_config (example_call 1)]\<rparr>
   \<and> dust_posts (fold (upsertToDustDatasource integral_only example_config first_fails)
         [example_call 1, example_call 2] empty_world)
     = [dust_request integral_only example_config (example_call 1),
        dust_request integral_only example_config (example_call 2)]
   \<and> console (fold (upsertToDustDatasource integral_only example_config first_fails)
         [example_call 1, example_call 2] empty_world)
     = [Console_error ''Error upserting transcript 1 to Dust datasource:'' ''Bad Request'',
        Console_log ''Upserted transcript 2 to Dust datasource'']"
proof -
  have id1: "template_number integral_only (callId (example_call 1)) = ''1''"
    and id2: "template_number integral_only (callId (example_call 2)) = ''2''"
    by (simp_all add: example_call_def eval_digits)
  have rej: "first_fails (length (dust_posts empty_world))
      (dust_request integral_only example_config (example_call 1))
        = Rejected (AxiosResponseError ''Bad Request'')"
    by (simp add: first_fails_def empty_world_def)
  note inst = upsert_failure_isolated [of first_fails empty_world integral_only example_config "example_call 1"
      "AxiosResponseError ''Bad Request''" "[example_call 1, example_call 2]"]
  have a: "upsertToDustDatasource integral_only example_config first_fails (example_call 1)
      empty_world
     = \<lparr>console = [Console_error ''Error upserting transcript 1 to Dust datasource:''
                     ''Bad Request''],
        modjo_posts = [],
        dust_posts = [dust_request integral_only example_config (example_call 1)]\<rparr>"
    using inst [THEN conjunct1] rej
    by (simp add: id1 console_error_def rejection_payload_def empty_world_def)
  have b: "dust_posts (fold (upsertToDustDatasource integral_only example_config first_fails)
         [example_call 1, example_call 2] empty_world)
     = [dust_request integral_only example_config (example_call 1),
        dust_request integral_only example_config (example_call 2)]"
    using inst [THEN conjunct2, THEN conjunct1] by (simp add: empty_world_def)
  have c: "console (fold (upsertToDustDatasource integral_only example_config first_fails)
         [example_call 1, example_call 2] empty_world)
     = [Console_error ''Error upserting transcript 1 to Dust datasource:'' ''Bad Request'',
        Console_log ''Upserted transcript 2 to Dust datasource'']"
    using inst [THEN conjunct2, THEN conjunct2, THEN conjunct1]
    by (simp add: empty_world_def upsert_report_def first_fails_def id1 id2
        rejection_payload_def)
  from a b c show ?thesis by simp
qed

text \<open>
  C4. The document identifier is \<^verbatim>\<open>modjo-transcript-\<close> followed by the call id as it
  prints (for an integral id from 0 to below \<open>2 ^ 53\<close>: its decimal digits), and the request
  path ends with it. Both are functions of the call alone, not of the run, and two calls
  with the same call id get the same identifier and the same path; upserting a record twice
  posts twice to one path.
\<close>

theorem documentId_from_callId:
  "documentId fmt c = ''modjo-transcript-'' @ template_number fmt (callId c)
   \<and> path (dust_request fmt cfg c)
       = ''/w/'' @ DUST_WORKSPACE_ID cfg @ ''/data_sources/'' @ DUST_DATASOURCE_ID cfg
           @ ''/documents/'' @ documentId fmt c
   \<and> (callId c = callId c' \<longrightarrow>
        documentId fmt c = documentId fmt c'
        \<and> path (dust_request fmt cfg c) = path (dust_request fmt cfg c'))
   \<and> (0 \<le> n \<and> n < 2 ^ 53 \<and> callId c = of_int n \<longrightarrow>
        documentId fmt c = ''modjo-transcript-'' @ digits (nat n))
   \<and> map path (dust_posts (upsertToDustDatasource fmt cfg dustApi c
                    (upsertToDustDatasource fmt cfg dustApi c w)))
       = map path (dust_posts w)
           @ [path (dust_request fmt cfg c), path (dust_request fmt cfg c)]"
proof -
  have digits_id: "documentId fmt c = ''modjo-transcript-'' @ digits (nat n)"
    if n: "0 \<le> n" "n < 2 ^ 53" "callId c = of_int n"
  proof -
    have "(2::int) ^ 53 < 10 ^ 21" by simp
    with n(2) have "n < 10 ^ 21" by linarith
    with n(1) have "Number_toString n = digits (nat n)" by (rule Number_toString_int)
    then show ?thesis by (simp add: documentId_def n(3) template_number_int)
  qed
  have same: "documentId fmt c = documentId fmt c'
      \<and> path (dust_request fmt cfg c) = path (dust_request fmt cfg c')"
    if "callId c = callId c'"
    using that by (simp add: documentId_def dust_request_def)
  have twice: "map path (dust_posts (upsertToDustDatasource fmt cfg dustApi c
                    (upsertToDustDatasource fmt cfg dustApi c w)))
       = map path (dust_posts w)
           @ [path (dust_request fmt cfg c), path (dust_request fmt cfg c)]"
    by (simp add: upsert_step)
  have "documentId fmt c = ''modjo-transcript-'' @ template_number fmt (callId c)"
    by (simp add: documentId_def)
  moreover have "path (dust_request fmt cfg c)
       = ''/w/'' @ DUST_WORKSPACE_ID cfg @ ''/data_sources/'' @ DUST_DATASOURCE_ID cfg
           @ ''/documents/'' @ documentId fmt c"
    by (simp add: dust_request_def)
  ultimately show ?thesis using digits_id same twice by blast
qed

theorem documentId_from_callId_witness:
  "documentId integral_only kickoff_call = ''modjo-transcript-42''
   \<and> documentId integral_only (example_call 42) = ''modjo-transcript-42''
   \<and> path (dust_request integral_only example_config kickoff_call)
       = ''/w/w1/data_sources/ds1/documents/modjo-transcript-42''"
proof -
  note inst = documentId_from_callId [of integral_only kickoff_call example_config "example_call 42" 42]
  have k: "callId kickoff_call = of_int 42" "callId kickoff_call = callId (example_call 42)"
    by (simp_all add: kickoff_call_def example_call_def)
  have d: "digits 42 = ''42''" by (simp add: eval_digits)
  have a: "documentId integral_only kickoff_call = ''modjo-transcript-42''"
    using inst [THEN conjunct2, THEN conjunct2, THEN conjunct2, THEN conjunct1] k(1)
    by (simp add: d)
  have b: "documentId integral_only kickoff_call = documentId integral_only (example_call 42)"
    using inst [THEN conjunct2, THEN conjunct2, THEN conjunct1] k(2) by simp
  have c: "path (dust_request integral_only example_config kickoff_call)
       = ''/w/w1/data_sources/ds1/documents/modjo-transcript-42''"
    using inst [THEN conjunct2, THEN conjunct1] by (simp add: a example_config_def)
  from a b c show ?thesis by simp
qed

end
